theory Spec2Isabelle
  imports Main "HOL-Library.Multiset"
begin

section \<open>Data model of the application controller (App.tsx)\<close>

text \<open>
  The controller is the React function component \<open>App\<close>. Its state is the tuple of
  \<open>useState\<close> cells; every handler reads the cells of the render it was created in and
  calls setters and services. A handler is modelled as a function from the state to the
  list of calls it makes, in program order; \<open>apply_effect\<close> gives each call its meaning on
  the state.

  The type \<open>PowerBarsCharacterData\<close> is imported from \<open>./types\<close>; only the fields the
  controller reads are kept: \<open>c.character.characterId\<close>, \<open>c.overallPower\<close> and the
  optional \<open>c.artifactData.bonusPower\<close>. Powers are integers (the data model); as
  JavaScript numbers they are doubles whose values are integers, see \<open>js_number\<close>.
\<close>

record Character =
  characterId :: string

record ArtifactData =
  bonusPower :: int

record PowerBarsCharacterData =
  character :: Character
  overallPower :: int
  artifactData :: "ArtifactData option"

text \<open>\<open>ManifestData\<close> is opaque to the controller, which only stores it.\<close>

datatype ManifestData = ManifestData nat

text \<open>
  An error object as the controller inspects it: its class (\<open>instanceof
  BungieSystemDisabledError\<close>) and its \<open>message\<close>.
\<close>

datatype js_error =
    BungieSystemDisabledError (message: string)
  | Error (message: string)

fun isBungieSystemDisabledError :: "js_error \<Rightarrow> bool" where
  "isBungieSystemDisabledError (BungieSystemDisabledError m) = True"
| "isBungieSystemDisabledError (Error m) = False"

record app_state =
  disableManualLogin :: bool
  isAuthed :: bool
  hasAuthError :: bool
  hasSelectedMembership :: bool
  manifestData :: "ManifestData option"
  hasManifestError :: bool
  isBungieSystemDisabled :: bool
  isBungieServiceUnavailable :: bool
  isFetchingCharacterData :: bool
  characterData :: "PowerBarsCharacterData list option"
  manifestState :: string
  draggingCharacterId :: "string option"
  characterDisplayOrder :: "string list option"
  persistedDisplayOrder :: "string list option"

section \<open>Display order: default order and validation\<close>

definition idOf :: "PowerBarsCharacterData \<Rightarrow> string" where
  "idOf c = characterId (character c)"

text \<open>
  \<open>characterData ? characterData.map(c => c.character.characterId) : []\<close>
\<close>

definition getDefaultCharacterDisplayOrder ::
    "PowerBarsCharacterData list option \<Rightarrow> string list" where
  "getDefaultCharacterDisplayOrder cd =
     (case cd of None \<Rightarrow> [] | Some cs \<Rightarrow> map idOf cs)"

text \<open>\<open>Array.prototype.includes\<close> on an array of strings.\<close>

fun arrayIncludes :: "'a list \<Rightarrow> 'a \<Rightarrow> bool" where
  "arrayIncludes [] x = False"
| "arrayIncludes (y # ys) x = (if y = x then True else arrayIncludes ys x)"

text \<open>
  \<open>isValidCharacterDisplayOrder\<close>: the conjunction
  \<open>characterData && characterData.length === characterIds.length &&
  characterIds.every(id => characterData.some(c => c.character.characterId === id)) &&
  characterData.every(c => characterIds.includes(c.character.characterId))\<close>.
  With \<open>characterData\<close> undefined the JavaScript value is \<open>undefined\<close>, which its only
  caller tests for truth; the model returns the truth value.
\<close>

definition isValidCharacterDisplayOrder ::
    "PowerBarsCharacterData list option \<Rightarrow> string list \<Rightarrow> bool" where
  "isValidCharacterDisplayOrder cd characterIds =
     (case cd of
        None \<Rightarrow> False
      | Some cs \<Rightarrow>
          length cs = length characterIds \<and>
          list_all (\<lambda>i. list_ex (\<lambda>c. idOf c = i) cs) characterIds \<and>
          list_all (\<lambda>c. arrayIncludes characterIds (idOf c)) cs)"

section \<open>JavaScript primitives used by the controller\<close>

text \<open>
  \<open>Array.prototype.indexOf\<close>: the index of the first element equal to \<open>x\<close>, or \<open>-1\<close>.
\<close>

fun indexOf :: "'a list \<Rightarrow> 'a \<Rightarrow> int" where
  "indexOf [] x = - 1"
| "indexOf (y # ys) x =
     (if y = x then 0
      else (let r = indexOf ys x in if r < 0 then - 1 else r + 1))"

text \<open>
  \<open>xs.splice(start, 1, item)\<close>, the array afterwards. As ECMAScript defines it, a
  negative \<open>start\<close> counts from the end (\<open>max (len + start) 0\<close>), a \<open>start\<close> past the end
  is the length, and the number of elements removed is \<open>min 1 (len - actualStart)\<close>.
\<close>

definition splice1 :: "'a list \<Rightarrow> int \<Rightarrow> 'a \<Rightarrow> 'a list" where
  "splice1 xs start item =
     (let len = int (length xs);
          actualStart = (if start < 0 then max (len + start) 0 else min start len);
          actualDeleteCount = min 1 (len - actualStart)
      in take (nat actualStart) xs @ [item] @ drop (nat (actualStart + actualDeleteCount)) xs)"

text \<open>
  The numbers the metric derivation computes with. A JavaScript number is an IEEE double;
  the power levels are integers (the data model), so \<open>Num n\<close> stands for the double whose
  value is the integer \<open>n\<close>: every integer up to \<open>2^53\<close> in magnitude, and beyond that the
  integers with at most 53 significant bits. The other three values are what the
  operations below can produce from such numbers: \<open>-Infinity\<close> (\<open>Math.max()\<close> of no
  arguments), and \<open>Infinity\<close> and \<open>NaN\<close> (an overflowing sum, and the sum of the two
  infinities).
\<close>

datatype js_number = NaN | NegInfinity | PosInfinity | Num int

text \<open>
  \<open>Math.max\<close>: \<open>NaN\<close> if any argument is \<open>NaN\<close>, \<open>-Infinity\<close> for no arguments, else the
  largest argument.
\<close>

fun js_max :: "js_number \<Rightarrow> js_number \<Rightarrow> js_number" where
  "js_max NaN y = NaN"
| "js_max x NaN = NaN"
| "js_max PosInfinity y = PosInfinity"
| "js_max x PosInfinity = PosInfinity"
| "js_max NegInfinity y = y"
| "js_max x NegInfinity = x"
| "js_max (Num a) (Num b) = Num (max a b)"

fun mathMax :: "js_number list \<Rightarrow> js_number" where
  "mathMax [] = NegInfinity"
| "mathMax (x # xs) = js_max x (mathMax xs)"

text \<open>The number of bits of a positive integer, \<open>floor (log2 n) + 1\<close>; 0 for 0.\<close>

function bitLength :: "int \<Rightarrow> nat" where
  "bitLength n = (if n \<le> 0 then 0 else Suc (bitLength (n div 2)))"
  by pat_completeness auto
termination
  by (relation "measure nat") auto

declare bitLength.simps [simp del]

text \<open>
  The double nearest to an integer, as IEEE 754 round-to-nearest, ties-to-even gives it.
  An integer of at most 53 bits is a double. A longer one lies between two neighbouring
  doubles \<open>q * u\<close> and \<open>(q + 1) * u\<close>, where \<open>u\<close> is the power of two that leaves \<open>q\<close> 53
  bits; the nearer one is taken, and of two equally near ones the one with the even
  multiplier. A result of magnitude \<open>2^1024\<close> or more overflows to an infinity.
\<close>

definition toDouble :: "int \<Rightarrow> js_number" where
  "toDouble x =
     (let m = \<bar>x\<bar>; len = bitLength m in
      if len \<le> 53 then Num x
      else
        (let u = 2 ^ (len - 53);
             q = m div u;
             r = m mod u;
             q' = (if 2 * r < u then q
                   else if u < 2 * r then q + 1
                   else if even q then q else q + 1);
             y = q' * u
         in if 2 ^ 1024 \<le> y then (if x < 0 then NegInfinity else PosInfinity)
            else Num (if x < 0 then - y else y)))"

text \<open>
  The operator \<open>+\<close> on numbers: the exact sum of two doubles, rounded to a double.
\<close>

fun js_add :: "js_number \<Rightarrow> js_number \<Rightarrow> js_number" where
  "js_add NaN y = NaN"
| "js_add x NaN = NaN"
| "js_add PosInfinity NegInfinity = NaN"
| "js_add NegInfinity PosInfinity = NaN"
| "js_add PosInfinity y = PosInfinity"
| "js_add x PosInfinity = PosInfinity"
| "js_add NegInfinity y = NegInfinity"
| "js_add x NegInfinity = NegInfinity"
| "js_add (Num a) (Num b) = toDouble (a + b)"

text \<open>
  A template literal with one substitution: \<open>TemplateLiteral p n\<close> is the string written
  \<open>`p${n}`\<close>, the characters \<open>p\<close> followed by the ECMAScript string conversion of the
  number \<open>n\<close>. The conversion is a built-in of the language and is kept as it is written,
  not unfolded into characters.
\<close>

datatype js_string = TemplateLiteral string js_number

section \<open>Calls made by the handlers\<close>

text \<open>
  One constructor per setter of the component and per service call with an effect
  outside it. \<open>console.error\<close> is left out: it changes nothing the controller reads.
\<close>

datatype effect =
    SetDisableManualLogin bool
  | SetIsAuthed bool
  | SetAuthError bool
  | SetHasMembership bool
  | SetManifestData ManifestData
  | SetManifestError bool
  | SetBungieSystemDisabled bool
  | SetBungieServiceUnavailable bool
  | SetIsFetchingCharacterData bool
  | SetCharacterData "PowerBarsCharacterData list"
  | SetManifestState string
  | SetDraggingCharacterId "string option"
  | SetCharacterDisplayOrder "string list option"
  | SaveCharacterDisplayOrder "string list"
  | SetSelectedDestinyMembership int
  | GaSet js_string js_string js_string
  | GaEvent string string js_string

text \<open>
  Modelled from the spec: \<open>saveCharacterDisplayOrder\<close> and \<open>loadCharacterDisplayOrder\<close>
  live in \<open>services/utils\<close>, which is not among the sources. The spec gives them as
  durable key-value storage: \<open>saveCharacterDisplayOrder(sequence)\<close> stores the sequence,
  \<open>loadCharacterDisplayOrder()\<close> returns the stored sequence or nothing.
\<close>

definition saveCharacterDisplayOrder :: "string list \<Rightarrow> string list option \<Rightarrow> string list option" where
  "saveCharacterDisplayOrder order storage = Some order"

definition loadCharacterDisplayOrder :: "string list option \<Rightarrow> string list option" where
  "loadCharacterDisplayOrder storage = storage"

fun apply_effect :: "effect \<Rightarrow> app_state \<Rightarrow> app_state" where
  "apply_effect (SetDisableManualLogin b) s = s\<lparr>disableManualLogin := b\<rparr>"
| "apply_effect (SetIsAuthed b) s = s\<lparr>isAuthed := b\<rparr>"
| "apply_effect (SetAuthError b) s = s\<lparr>hasAuthError := b\<rparr>"
| "apply_effect (SetHasMembership b) s = s\<lparr>hasSelectedMembership := b\<rparr>"
| "apply_effect (SetManifestData m) s = s\<lparr>manifestData := Some m\<rparr>"
| "apply_effect (SetManifestError b) s = s\<lparr>hasManifestError := b\<rparr>"
| "apply_effect (SetBungieSystemDisabled b) s = s\<lparr>isBungieSystemDisabled := b\<rparr>"
| "apply_effect (SetBungieServiceUnavailable b) s = s\<lparr>isBungieServiceUnavailable := b\<rparr>"
| "apply_effect (SetIsFetchingCharacterData b) s = s\<lparr>isFetchingCharacterData := b\<rparr>"
| "apply_effect (SetCharacterData d) s = s\<lparr>characterData := Some d\<rparr>"
| "apply_effect (SetManifestState t) s = s\<lparr>manifestState := t\<rparr>"
| "apply_effect (SetDraggingCharacterId i) s = s\<lparr>draggingCharacterId := i\<rparr>"
| "apply_effect (SetCharacterDisplayOrder ord) s = s\<lparr>characterDisplayOrder := ord\<rparr>"
| "apply_effect (SaveCharacterDisplayOrder ord) s =
     s\<lparr>persistedDisplayOrder := saveCharacterDisplayOrder ord (persistedDisplayOrder s)\<rparr>"
| "apply_effect (SetSelectedDestinyMembership t) s = s"
| "apply_effect (GaSet a b c) s = s"
| "apply_effect (GaEvent a b c) s = s"

definition apply_effects :: "effect list \<Rightarrow> app_state \<Rightarrow> app_state" where
  "apply_effects es s = fold apply_effect es s"

text \<open>
  The initial \<open>useState\<close> values; the three booleans are what \<open>hasManuallyAuthed()\<close>,
  \<open>hasValidAuth()\<close> and \<open>hasSelectedDestinyMembership()\<close> return at mount.
\<close>

definition initial_state :: "bool \<Rightarrow> bool \<Rightarrow> bool \<Rightarrow> string list option \<Rightarrow> app_state" where
  "initial_state manuallyAuthed validAuth selectedMembership storage =
     \<lparr> disableManualLogin = manuallyAuthed,
       isAuthed = validAuth,
       hasAuthError = False,
       hasSelectedMembership = selectedMembership,
       manifestData = None,
       hasManifestError = False,
       isBungieSystemDisabled = False,
       isBungieServiceUnavailable = False,
       isFetchingCharacterData = False,
       characterData = None,
       manifestState = ''Unknown'',
       draggingCharacterId = None,
       characterDisplayOrder = loadCharacterDisplayOrder storage,
       persistedDisplayOrder = storage \<rparr>"

section \<open>Service calls: auth, manifest, character data\<close>

text \<open>
  The bodies of the three service callers, from the point where the awaited promise has
  settled. When a call is made (the \<open>throttle\<close> wrappers, the effects and the interval
  that schedule it) is not part of the model.
\<close>

datatype auth_outcome = AuthResolved bool | AuthThrown js_error

text \<open>The body of \<open>doAuth\<close> once \<open>auth()\<close> has settled.\<close>

fun doAuth :: "auth_outcome \<Rightarrow> effect list" where
  "doAuth (AuthResolved authResult) =
     (if authResult then [SetIsAuthed True, SetAuthError False]
      else [SetIsAuthed False, SetAuthError True])"
| "doAuth (AuthThrown e) = [SetIsAuthed False, SetAuthError True]"

text \<open>
  What \<open>await getManifest()\<close> gives: a result with \<open>error\<close>, a result with \<open>manifest\<close>, or
  a thrown error.
\<close>

datatype manifest_outcome =
    ManifestErrorResult js_error
  | ManifestOk ManifestData
  | ManifestThrown js_error

text \<open>The body of \<open>doGetManifest\<close> once \<open>getManifest()\<close> has settled.\<close>

fun doGetManifest :: "manifest_outcome \<Rightarrow> effect list" where
  "doGetManifest (ManifestErrorResult e) =
     [SetManifestError True]
     @ (if isBungieSystemDisabledError e then [SetBungieSystemDisabled True] else [])
     @ (if message e = ''503'' then [SetBungieServiceUnavailable True] else [])"
| "doGetManifest (ManifestOk m) = [SetManifestData m]"
| "doGetManifest (ManifestThrown e) = [SetManifestError True]"

text \<open>
  The metric derivation \<open>updateCharacterData\<close> of \<open>doGetCharacterData\<close>.
  \<open>artifactBonusOrZero\<close> is the function mapped for the artifact power,
  \<open>c => (c.artifactData ? c.artifactData.bonusPower : 0)\<close>.
\<close>

definition artifactBonusOrZero :: "PowerBarsCharacterData \<Rightarrow> int" where
  "artifactBonusOrZero c = (case artifactData c of Some a \<Rightarrow> bonusPower a | None \<Rightarrow> 0)"

definition newOverallPower :: "PowerBarsCharacterData list \<Rightarrow> js_number" where
  "newOverallPower newData = mathMax (map (\<lambda>c. Num (overallPower c)) newData)"

definition newArtifactPower :: "PowerBarsCharacterData list \<Rightarrow> js_number" where
  "newArtifactPower newData = mathMax (map (\<lambda>c. Num (artifactBonusOrZero c)) newData)"

definition newTotalPower :: "PowerBarsCharacterData list \<Rightarrow> js_number" where
  "newTotalPower newData = js_add (newOverallPower newData) (newArtifactPower newData)"

definition updateCharacterData :: "PowerBarsCharacterData list \<Rightarrow> effect list" where
  "updateCharacterData newData =
     [GaSet (TemplateLiteral [] (newOverallPower newData))
            (TemplateLiteral [] (newArtifactPower newData))
            (TemplateLiteral [] (newTotalPower newData)),
      SetCharacterData newData]"

text \<open>
  \<open>doGetCharacterData\<close> in its parts: the start (guarded by the \<open>isFetchingCharacterData\<close>
  it was passed), and the \<open>catch\<close> block. The two callbacks handed to
  \<open>getCharacterData\<close> are \<open>updateCharacterData\<close> and \<open>setIsFetchingCharacterData\<close>.
\<close>

definition doGetCharacterData_start :: "app_state \<Rightarrow> effect list" where
  "doGetCharacterData_start s =
     (if \<not> isFetchingCharacterData s then [SetIsFetchingCharacterData True] else [])"

definition doGetCharacterData_catch :: "js_error \<Rightarrow> effect list" where
  "doGetCharacterData_catch e =
     (if isBungieSystemDisabledError e then [SetBungieSystemDisabled True] else [])
     @ (if message e = ''503'' then [SetBungieServiceUnavailable True] else [])"

section \<open>Event handlers\<close>

datatype app_event =
    GET_MANIFEST
  | LOAD_MANIFEST_DATA
  | FETCH_MANIFEST_DATA
  | PARSE_MANIFEST_DATA
  | STORE_MANIFEST_DATA
  | MANIFEST_DATA_READY
  | LOG_OUT
  | MANIFEST_FETCH_ERROR

text \<open>
  The \<open>useEvent\<close> handlers. The handler of \<open>MANIFEST_FETCH_ERROR\<close> calls
  \<open>doGetManifest.current(...)\<close>, which returns the throttled fetch and makes no setter
  call itself; what the body of the fetch does once \<open>getManifest()\<close> has settled is
  \<open>doGetManifest\<close> above.
\<close>

fun onEvent :: "app_event \<Rightarrow> effect list" where
  "onEvent GET_MANIFEST = [SetManifestError False, SetManifestState ''Checking manifest version'']"
| "onEvent LOAD_MANIFEST_DATA = [SetManifestState ''Loading manifest data'']"
| "onEvent FETCH_MANIFEST_DATA = [SetManifestState ''Fetching manifest data from Bungie'']"
| "onEvent PARSE_MANIFEST_DATA = [SetManifestState ''Processing manifest data'']"
| "onEvent STORE_MANIFEST_DATA = [SetManifestState ''Saving manifest data'']"
| "onEvent MANIFEST_DATA_READY = [SetManifestError False, SetManifestState ''Manifest ready'']"
| "onEvent LOG_OUT = [SetIsAuthed False, SetDisableManualLogin False]"
| "onEvent MANIFEST_FETCH_ERROR = []"

text \<open>\<open>onSelectMembership\<close>, for a membership of the given \<open>membershipType\<close>.\<close>

definition onSelectMembership :: "int \<Rightarrow> effect list" where
  "onSelectMembership membershipType =
     [GaEvent ''Platform'' ''Select platform''
        (TemplateLiteral ''Membership type: '' (Num membershipType)),
      SetSelectedDestinyMembership membershipType,
      SetHasMembership True]"

section \<open>Status derivation\<close>

text \<open>
  The value of \<open>status\<close> at the end of the \<open>if\<close> chain: one of the four JSX messages, or a
  string (initially the empty string).
\<close>

datatype status_view =
    BungieApiDisabled
  | BungieApiUnavailable
  | AuthenticationRequired
  | ManifestFetchError
  | StatusText string

definition hasManifestData :: "app_state \<Rightarrow> bool" where
  "hasManifestData s = (manifestState s = ''Manifest ready'')"

definition noCharacterData :: "app_state \<Rightarrow> bool" where
  "noCharacterData s = (case characterData s of None \<Rightarrow> True | Some cs \<Rightarrow> length cs = 0)"

definition status :: "app_state \<Rightarrow> status_view" where
  "status s =
     (if isBungieSystemDisabled s then BungieApiDisabled
      else if isBungieServiceUnavailable s then BungieApiUnavailable
      else if hasAuthError s then AuthenticationRequired
      else if hasManifestError s then ManifestFetchError
      else if \<not> isAuthed s then StatusText ''Authenticating...''
      else if \<not> hasSelectedMembership s then StatusText ''Waiting for Destiny platform selection...''
      else if \<not> hasManifestData s then StatusText (manifestState s)
      else if noCharacterData s then
        (if isFetchingCharacterData s then StatusText ''Fetching character data...''
         else StatusText ''No character data'')
      else StatusText [])"

section \<open>Drag and drop\<close>

text \<open>\<open>!draggingCharacterId\<close>: true of \<open>undefined\<close> and of the empty string.\<close>

definition notDragging :: "string option \<Rightarrow> bool" where
  "notDragging d = (case d of None \<Rightarrow> True | Some i \<Rightarrow> i = [])"

text \<open>
  \<open>characterDisplayOrder && characterDisplayOrder.length > 0 ? characterDisplayOrder :
  getDefaultCharacterDisplayOrder()\<close>
\<close>

definition currentCharacterOrder :: "app_state \<Rightarrow> string list" where
  "currentCharacterOrder s =
     (case characterDisplayOrder s of
        Some ord \<Rightarrow>
          if 0 < length ord then ord else getDefaultCharacterDisplayOrder (characterData s)
      | None \<Rightarrow> getDefaultCharacterDisplayOrder (characterData s))"

text \<open>
  \<open>swappedOrder\<close>: a copy of the current order, spliced twice. Both indices are looked up
  in the current order, not in the copy.
\<close>

definition swappedOrder :: "string list \<Rightarrow> string \<Rightarrow> string \<Rightarrow> string list" where
  "swappedOrder current dragging dropCharacterId =
     splice1 (splice1 current (indexOf current dragging) dropCharacterId)
       (indexOf current dropCharacterId) dragging"

definition dropOnCharacterId :: "string \<Rightarrow> app_state \<Rightarrow> effect list" where
  "dropOnCharacterId dropCharacterId s =
     (case draggingCharacterId s of
        None \<Rightarrow> []
      | Some dragging \<Rightarrow>
          if notDragging (Some dragging) \<or> dragging = dropCharacterId then []
          else
            (let swapped = swappedOrder (currentCharacterOrder s) dragging dropCharacterId
             in [SaveCharacterDisplayOrder swapped, SetCharacterDisplayOrder (Some swapped)]))"

definition onDragStart :: "string \<Rightarrow> effect list" where
  "onDragStart i = [SetDraggingCharacterId (Some i)]"

definition onDragEnd :: "effect list" where
  "onDragEnd = [SetDraggingCharacterId None]"

section \<open>The order used by a render\<close>

text \<open>
  \<open>useCharacterOrder\<close> as the render computes it, with the setter call the render makes.
  The validation is guarded by \<open>characterData && characterData.length > 0 &&
  characterDisplayOrder && characterDisplayOrder.length > 0\<close>.
\<close>

definition useCharacterOrder :: "app_state \<Rightarrow> string list \<times> effect list" where
  "useCharacterOrder s =
     (let default = getDefaultCharacterDisplayOrder (characterData s) in
      case characterData s of
        None \<Rightarrow> (default, [])
      | Some cs \<Rightarrow>
          if 0 < length cs then
            (case characterDisplayOrder s of
               None \<Rightarrow> (default, [])
             | Some ord \<Rightarrow>
                 if 0 < length ord then
                   (if isValidCharacterDisplayOrder (characterData s) ord then (ord, [])
                    else (default, [SetCharacterDisplayOrder None]))
                 else (default, []))
          else (default, []))"

section \<open>Executions of the controller\<close>

text \<open>
  Everything that can happen to the component, one at a time (a single execution
  context): a service call settling, a callback of \<open>getCharacterData\<close>, a notification, a
  user gesture, a render.
\<close>

datatype action =
    AuthSettled auth_outcome
  | ManifestSettled manifest_outcome
  | CharacterDataRequested
  | CharacterDataDelivered "PowerBarsCharacterData list"
  | FetchingChanged bool
  | CharacterDataThrown js_error
  | Notified app_event
  | SelectMembership int
  | DragStart string
  | DragEnd
  | DragDrop string
  | Render

fun handle :: "action \<Rightarrow> app_state \<Rightarrow> effect list" where
  "handle (AuthSettled r) s = doAuth r"
| "handle (ManifestSettled r) s = doGetManifest r"
| "handle CharacterDataRequested s = doGetCharacterData_start s"
| "handle (CharacterDataDelivered newData) s = updateCharacterData newData"
| "handle (FetchingChanged b) s = [SetIsFetchingCharacterData b]"
| "handle (CharacterDataThrown e) s = doGetCharacterData_catch e"
| "handle (Notified ev) s = onEvent ev"
| "handle (SelectMembership t) s = onSelectMembership t"
| "handle (DragStart i) s = onDragStart i"
| "handle DragEnd s = onDragEnd"
| "handle (DragDrop i) s = dropOnCharacterId i s"
| "handle Render s = snd (useCharacterOrder s)"

definition step :: "action \<Rightarrow> app_state \<Rightarrow> app_state" where
  "step a s = apply_effects (handle a s) s"

definition run :: "action list \<Rightarrow> app_state \<Rightarrow> app_state" where
  "run acts s = fold step acts s"

section \<open>A manifest fetch as the controller sees it\<close>

text \<open>
  Modelled from the spec: \<open>getManifest\<close> lives in \<open>services/bungie-api\<close>, which is not
  among the sources. The spec gives it as returning a manifest or an error and as
  reporting its progress through the notifications check version, load cached, fetch
  remote, parse, store and ready, in this order; a fetch that returns a manifest has
  reported ready, its last stage. \<open>getManifest_reports stages outcome\<close> says that the
  notifications \<open>stages\<close> and the result \<open>outcome\<close> are those of one call.
\<close>

definition manifestStages :: "app_event list" where
  "manifestStages =
     [GET_MANIFEST, LOAD_MANIFEST_DATA, FETCH_MANIFEST_DATA, PARSE_MANIFEST_DATA,
      STORE_MANIFEST_DATA, MANIFEST_DATA_READY]"

fun inOrderOf :: "'a list \<Rightarrow> 'a list \<Rightarrow> bool" where
  "inOrderOf [] ys = True"
| "inOrderOf (x # xs) [] = False"
| "inOrderOf (x # xs) (y # ys) = (if x = y then inOrderOf xs ys else inOrderOf (x # xs) ys)"

definition getManifest_reports :: "app_event list \<Rightarrow> manifest_outcome \<Rightarrow> bool" where
  "getManifest_reports stages outcome =
     (inOrderOf stages manifestStages \<and>
      (case outcome of
         ManifestOk m \<Rightarrow> stages \<noteq> [] \<and> last stages = MANIFEST_DATA_READY
       | ManifestErrorResult e \<Rightarrow> True
       | ManifestThrown e \<Rightarrow> True))"

text \<open>
  One manifest fetch as a run of the controller: the handlers of the notifications, in the
  order reported, and then the body of \<open>doGetManifest\<close> with the awaited result.
\<close>

definition manifestFetch :: "app_event list \<Rightarrow> manifest_outcome \<Rightarrow> action list" where
  "manifestFetch stages outcome = map Notified stages @ [ManifestSettled outcome]"

section \<open>Example data\<close>

text \<open>A character record with the given id, for concrete snapshot sets.\<close>

definition mkCharacter :: "string \<Rightarrow> int \<Rightarrow> int option \<Rightarrow> PowerBarsCharacterData" where
  "mkCharacter i p a =
     \<lparr> character = \<lparr> characterId = i \<rparr>, overallPower = p,
       artifactData = map_option (\<lambda>b. \<lparr> bonusPower = b \<rparr>) a \<rparr>"

text \<open>
  The scenario of the spec: the snapshot set of two characters \<open>A\<close> and \<open>B\<close>, delivered to
  a freshly mounted, authenticated controller with no persisted order.
\<close>

definition snapshotAB :: "PowerBarsCharacterData list" where
  "snapshotAB = [mkCharacter ''A'' 750 None, mkCharacter ''B'' 760 None]"

definition loadedAB :: app_state where
  "loadedAB = step (CharacterDataDelivered snapshotAB) (initial_state False True True None)"

section \<open>Helper lemmas\<close>

lemma arrayIncludes_iff: "arrayIncludes xs x \<longleftrightarrow> x \<in> set xs"
  by (induction xs) auto

lemma idOf_mkCharacter: "idOf (mkCharacter i p a) = i"
  by (simp add: idOf_def mkCharacter_def)

lemma isValid_Some_sets:
  "isValidCharacterDisplayOrder (Some cs) ids \<longleftrightarrow>
     length cs = length ids \<and> set ids \<subseteq> idOf ` set cs \<and> idOf ` set cs \<subseteq> set ids"
  by (auto simp: isValidCharacterDisplayOrder_def list_all_iff list_ex_iff arrayIncludes_iff)

lemma indexOf_absent: "x \<notin> set xs \<Longrightarrow> indexOf xs x = - 1"
  by (induction xs) (auto simp: Let_def)

lemma indexOf_present:
  "x \<in> set xs \<Longrightarrow> 0 \<le> indexOf xs x \<and> nat (indexOf xs x) < length xs \<and> xs ! nat (indexOf xs x) = x"
proof (induction xs)
  case Nil
  then show ?case by simp
next
  case (Cons y ys)
  show ?case
  proof (cases "y = x")
    case True
    then show ?thesis by simp
  next
    case False
    with Cons.prems have "x \<in> set ys" by simp
    from Cons.IH [OF this] False show ?thesis
      by (simp add: Let_def nat_add_distrib)
  qed
qed

lemma indexOf_first: "k < nat (indexOf xs x) \<Longrightarrow> xs ! k \<noteq> x"
proof (induction xs arbitrary: k)
  case Nil
  then show ?case by simp
next
  case (Cons y ys)
  show ?case
  proof (cases "y = x")
    case True
    with Cons.prems show ?thesis by simp
  next
    case False
    show ?thesis
    proof (cases k)
      case 0
      with False show ?thesis by simp
    next
      case (Suc j)
      from Cons.prems False have "0 \<le> indexOf ys x" 
        by (auto simp: Let_def split: if_splits)
      with Cons.prems False Suc have "j < nat (indexOf ys x)"
        by (auto simp: Let_def nat_add_distrib split: if_splits)
      from Cons.IH [OF this] Suc show ?thesis by simp
    qed
  qed
qed

lemma splice1_in_range:
  "i < length xs \<Longrightarrow> splice1 xs (int i) item = xs[i := item]"
  by (simp add: splice1_def Let_def upd_conv_take_nth_drop nat_add_distrib)

lemma swappedOrder_present:
  assumes d: "d \<in> set cur" and t: "t \<in> set cur"
  shows "swappedOrder cur d t = cur[nat (indexOf cur d) := t, nat (indexOf cur t) := d]"
proof -
  from indexOf_present [OF d] have i: "indexOf cur d = int (nat (indexOf cur d))" "nat (indexOf cur d) < length cur"
    by auto
  from indexOf_present [OF t] have j: "indexOf cur t = int (nat (indexOf cur t))" "nat (indexOf cur t) < length cur"
    by auto
  have "splice1 cur (indexOf cur d) t = cur[nat (indexOf cur d) := t]"
    using splice1_in_range [OF i(2), of t] i(1) by simp
  moreover have "splice1 (cur[nat (indexOf cur d) := t]) (indexOf cur t) d
      = cur[nat (indexOf cur d) := t, nat (indexOf cur t) := d]"
    using splice1_in_range [of "nat (indexOf cur t)" "cur[nat (indexOf cur d) := t]" d] j by simp
  ultimately show ?thesis by (simp add: swappedOrder_def)
qed

lemma mset_swappedOrder:
  assumes d: "d \<in> set cur" and t: "t \<in> set cur"
  shows "mset (swappedOrder cur d t) = mset cur"
proof -
  let ?i = "nat (indexOf cur d)" and ?j = "nat (indexOf cur t)"
  from indexOf_present [OF d] have i: "?i < length cur" "cur ! ?i = d" by auto
  from indexOf_present [OF t] have j: "?j < length cur" "cur ! ?j = t" by auto
  have "swappedOrder cur d t = cur[?i := cur ! ?j, ?j := cur ! ?i]"
    using swappedOrder_present [OF d t] i j by simp
  then show ?thesis using mset_swap [OF j(1) i(1)] by simp
qed


lemma loadedAB_eval:
  "characterData loadedAB = Some snapshotAB"
  "characterDisplayOrder loadedAB = None"
  "draggingCharacterId loadedAB = None"
  by (simp_all add: loadedAB_def step_def apply_effects_def updateCharacterData_def
      initial_state_def loadCharacterDisplayOrder_def)

lemma isValid_distinct_mset:
  assumes v: "isValidCharacterDisplayOrder (Some cs) ord" and dist: "distinct (map idOf cs)"
  shows "mset ord = mset (map idOf cs)"
proof -
  from v have len: "length cs = length ord" and sets: "set ord = set (map idOf cs)"
    by (auto simp: isValid_Some_sets)
  from dist have "card (set (map idOf cs)) = length (map idOf cs)"
    by (rule distinct_card)
  with len sets have "card (set ord) = length ord" by simp
  then have "distinct ord" by (rule card_distinct)
  then have "(set ord = set (map idOf cs)) = (mset ord = mset (map idOf cs))"
    using dist by (rule set_eq_iff_mset_eq_distinct)
  with sets show ?thesis by blast
qed

lemma loadedAB_fields:
  "loadedAB =
     \<lparr> disableManualLogin = False, isAuthed = True, hasAuthError = False,
       hasSelectedMembership = True, manifestData = None, hasManifestError = False,
       isBungieSystemDisabled = False, isBungieServiceUnavailable = False,
       isFetchingCharacterData = False, characterData = Some snapshotAB,
       manifestState = ''Unknown'', draggingCharacterId = None,
       characterDisplayOrder = None, persistedDisplayOrder = None \<rparr>"
  by (simp add: loadedAB_def step_def apply_effects_def updateCharacterData_def
      initial_state_def loadCharacterDisplayOrder_def)

lemma mathMax_Num:
  "mathMax (map (\<lambda>c. Num (f c)) xs) = (if xs = [] then NegInfinity else Num (Max (f ` set xs)))"
  by (induction xs) auto

lemma fold_apply_effect_invariant:
  assumes "P s" and "\<And>e t. e \<in> set es \<Longrightarrow> P t \<Longrightarrow> P (apply_effect e t)"
  shows "P (fold apply_effect es s)"
  using assms by (induction es arbitrary: s) auto

lemma set_dropOnCharacterId:
  "e \<in> set (dropOnCharacterId t s) \<Longrightarrow>
     (\<exists>ord. e = SaveCharacterDisplayOrder ord) \<or> (\<exists>ord. e = SetCharacterDisplayOrder ord)"
  by (auto simp: dropOnCharacterId_def Let_def split: option.splits if_splits)

lemma set_useCharacterOrder:
  "e \<in> set (snd (useCharacterOrder s)) \<Longrightarrow> e = SetCharacterDisplayOrder None"
  by (auto simp: useCharacterOrder_def Let_def split: option.splits if_splits)

text \<open>Which handlers clear a sticky flag, and which set the dragged identifier.\<close>

lemma handle_clearing_calls:
  assumes "e \<in> set (handle a s)"
  shows "e = SetBungieSystemDisabled b \<Longrightarrow> b"
    and "e = SetBungieServiceUnavailable b \<Longrightarrow> b"
    and "e = SetAuthError b \<Longrightarrow> a \<noteq> AuthSettled (AuthResolved True) \<Longrightarrow> b"
    and "e = SetManifestError b \<Longrightarrow> a \<noteq> Notified GET_MANIFEST \<Longrightarrow>
           a \<noteq> Notified MANIFEST_DATA_READY \<Longrightarrow> b"
    and "e = SetDraggingCharacterId d \<Longrightarrow> (\<exists>i. a = DragStart i \<and> d = Some i) \<or> (a = DragEnd \<and> d = None)"
proof -
  have "(e = SetBungieSystemDisabled b \<longrightarrow> b) \<and>
        (e = SetBungieServiceUnavailable b \<longrightarrow> b) \<and>
        (e = SetAuthError b \<longrightarrow> a \<noteq> AuthSettled (AuthResolved True) \<longrightarrow> b) \<and>
        (e = SetManifestError b \<longrightarrow> a \<noteq> Notified GET_MANIFEST \<longrightarrow>
           a \<noteq> Notified MANIFEST_DATA_READY \<longrightarrow> b) \<and>
        (e = SetDraggingCharacterId d \<longrightarrow> (\<exists>i. a = DragStart i \<and> d = Some i) \<or> (a = DragEnd \<and> d = None))"
  proof (cases a)
    case (AuthSettled r)
    with assms show ?thesis by (cases r) (auto split: if_splits)
  next
    case (ManifestSettled r)
    with assms show ?thesis by (cases r) (auto split: if_splits)
  next
    case (Notified ev)
    with assms show ?thesis by (cases ev) auto
  next
    case (DragDrop t)
    with assms show ?thesis by (auto dest: set_dropOnCharacterId)
  next
    case Render
    with assms show ?thesis by (auto dest: set_useCharacterOrder)
  qed (use assms in \<open>auto simp: doGetCharacterData_start_def doGetCharacterData_catch_def
        updateCharacterData_def onSelectMembership_def onDragStart_def onDragEnd_def
        split: if_splits\<close>)
  then show "e = SetBungieSystemDisabled b \<Longrightarrow> b"
    and "e = SetBungieServiceUnavailable b \<Longrightarrow> b"
    and "e = SetAuthError b \<Longrightarrow> a \<noteq> AuthSettled (AuthResolved True) \<Longrightarrow> b"
    and "e = SetManifestError b \<Longrightarrow> a \<noteq> Notified GET_MANIFEST \<Longrightarrow>
           a \<noteq> Notified MANIFEST_DATA_READY \<Longrightarrow> b"
    and "e = SetDraggingCharacterId d \<Longrightarrow> (\<exists>i. a = DragStart i \<and> d = Some i) \<or> (a = DragEnd \<and> d = None)"
    by blast+
qed

lemma step_keeps_system_disabled:
  assumes "isBungieSystemDisabled s"
  shows "isBungieSystemDisabled (step a s)"
  unfolding step_def apply_effects_def
proof (rule fold_apply_effect_invariant [where P = isBungieSystemDisabled, OF assms])
  fix e and t :: app_state
  assume e: "e \<in> set (handle a s)" and t: "isBungieSystemDisabled t"
  show "isBungieSystemDisabled (apply_effect e t)"
  proof (cases e)
    case (SetBungieSystemDisabled b)
    with handle_clearing_calls(1) [OF e] show ?thesis by simp
  qed (use t in simp_all)
qed

lemma step_keeps_service_unavailable:
  assumes "isBungieServiceUnavailable s"
  shows "isBungieServiceUnavailable (step a s)"
  unfolding step_def apply_effects_def
proof (rule fold_apply_effect_invariant [where P = isBungieServiceUnavailable, OF assms])
  fix e and t :: app_state
  assume e: "e \<in> set (handle a s)" and t: "isBungieServiceUnavailable t"
  show "isBungieServiceUnavailable (apply_effect e t)"
  proof (cases e)
    case (SetBungieServiceUnavailable b)
    with handle_clearing_calls(2) [OF e] show ?thesis by simp
  qed (use t in simp_all)
qed

lemma step_keeps_auth_error:
  assumes "hasAuthError s" and a: "a \<noteq> AuthSettled (AuthResolved True)"
  shows "hasAuthError (step a s)"
  unfolding step_def apply_effects_def
proof (rule fold_apply_effect_invariant [where P = hasAuthError, OF assms(1)])
  fix e and t :: app_state
  assume e: "e \<in> set (handle a s)" and t: "hasAuthError t"
  show "hasAuthError (apply_effect e t)"
  proof (cases e)
    case (SetAuthError b)
    with handle_clearing_calls(3) [OF e _ a] show ?thesis by simp
  qed (use t in simp_all)
qed

lemma step_keeps_manifest_error:
  assumes "hasManifestError s"
    and a: "a \<noteq> Notified GET_MANIFEST" "a \<noteq> Notified MANIFEST_DATA_READY"
  shows "hasManifestError (step a s)"
  unfolding step_def apply_effects_def
proof (rule fold_apply_effect_invariant [where P = hasManifestError, OF assms(1)])
  fix e and t :: app_state
  assume e: "e \<in> set (handle a s)" and t: "hasManifestError t"
  show "hasManifestError (apply_effect e t)"
  proof (cases e)
    case (SetManifestError b)
    with handle_clearing_calls(4) [OF e _ a] show ?thesis by simp
  qed (use t in simp_all)
qed

lemma step_keeps_dragging:
  assumes a: "\<And>i. a \<noteq> DragStart i" "a \<noteq> DragEnd"
  shows "draggingCharacterId (step a s) = draggingCharacterId s"
  unfolding step_def apply_effects_def
proof (rule fold_apply_effect_invariant [where P = "\<lambda>t. draggingCharacterId t = draggingCharacterId s"])
  show "draggingCharacterId s = draggingCharacterId s" ..
next
  fix e and t :: app_state
  assume e: "e \<in> set (handle a s)" and t: "draggingCharacterId t = draggingCharacterId s"
  show "draggingCharacterId (apply_effect e t) = draggingCharacterId s"
  proof (cases e)
    case (SetDraggingCharacterId d)
    with handle_clearing_calls(5) [OF e] a show ?thesis by blast
  qed (use t in simp_all)
qed

lemma run_Nil: "run [] s = s"
  by (simp add: run_def)

lemma run_Cons: "run (a # acts) s = run acts (step a s)"
  by (simp add: run_def)

lemma run_keeps_system_disabled:
  "isBungieSystemDisabled s \<Longrightarrow> isBungieSystemDisabled (run acts s)"
  by (induction acts arbitrary: s) (simp_all add: run_Nil run_Cons step_keeps_system_disabled)

lemma run_keeps_service_unavailable:
  "isBungieServiceUnavailable s \<Longrightarrow> isBungieServiceUnavailable (run acts s)"
  by (induction acts arbitrary: s) (simp_all add: run_Nil run_Cons step_keeps_service_unavailable)

lemma run_keeps_auth_error:
  "hasAuthError s \<Longrightarrow> AuthSettled (AuthResolved True) \<notin> set acts \<Longrightarrow> hasAuthError (run acts s)"
  by (induction acts arbitrary: s) (auto simp: run_Nil run_Cons step_keeps_auth_error)

lemma run_keeps_manifest_error:
  "hasManifestError s \<Longrightarrow> Notified GET_MANIFEST \<notin> set acts \<Longrightarrow>
   Notified MANIFEST_DATA_READY \<notin> set acts \<Longrightarrow> hasManifestError (run acts s)"
  by (induction acts arbitrary: s) (auto simp: run_Nil run_Cons step_keeps_manifest_error)

lemma bitLength_le: "n < 2 ^ k \<Longrightarrow> bitLength n \<le> k"
proof (induction k arbitrary: n)
  case 0
  then show ?case by (subst bitLength.simps) simp
next
  case (Suc k)
  show ?case
  proof (cases "n \<le> 0")
    case True
    then show ?thesis by (subst bitLength.simps) simp
  next
    case False
    from Suc.prems have "n div 2 < 2 ^ k" by simp
    from Suc.IH [OF this] False show ?thesis by (subst bitLength.simps) simp
  qed
qed

lemma toDouble_exact: "\<bar>x\<bar> < 2 ^ 53 \<Longrightarrow> toDouble x = Num x"
proof -
  assume "\<bar>x\<bar> < 2 ^ 53"
  then have "bitLength \<bar>x\<bar> \<le> 53" by (rule bitLength_le)
  then show ?thesis by (simp add: toDouble_def Let_def)
qed

lemma run_append: "run (xs @ ys) s = run ys (run xs s)"
  by (simp add: run_def)

lemma step_Notified_frame:
  "manifestData (step (Notified ev) s) = manifestData s"
  "isBungieSystemDisabled (step (Notified ev) s) = isBungieSystemDisabled s"
  "isBungieServiceUnavailable (step (Notified ev) s) = isBungieServiceUnavailable s"
  by (cases ev; simp add: step_def apply_effects_def)+

lemma run_Notified_frame:
  "manifestData (run (map Notified stages) s) = manifestData s \<and>
   isBungieSystemDisabled (run (map Notified stages) s) = isBungieSystemDisabled s \<and>
   isBungieServiceUnavailable (run (map Notified stages) s) = isBungieServiceUnavailable s"
  by (induction stages arbitrary: s) (simp_all add: run_Nil run_Cons step_Notified_frame)

lemma step_Notified_keeps_cleared:
  "\<not> hasManifestError s \<Longrightarrow> \<not> hasManifestError (step (Notified ev) s)"
  by (cases ev) (simp_all add: step_def apply_effects_def)

lemma run_Notified_ready_clears:
  "MANIFEST_DATA_READY \<in> set stages \<or> \<not> hasManifestError s \<Longrightarrow>
     \<not> hasManifestError (run (map Notified stages) s)"
proof (induction stages arbitrary: s)
  case Nil
  then show ?case by (simp add: run_Nil)
next
  case (Cons ev stages)
  have "MANIFEST_DATA_READY \<in> set stages \<or> \<not> hasManifestError (step (Notified ev) s)"
  proof (cases "ev = MANIFEST_DATA_READY")
    case True
    then show ?thesis by (simp add: step_def apply_effects_def)
  next
    case False
    with Cons.prems show ?thesis by (auto dest: step_Notified_keeps_cleared)
  qed
  from Cons.IH [OF this] show ?case by (simp add: run_Cons)
qed

lemma getManifest_reports_ready:
  "getManifest_reports stages (ManifestOk m) \<Longrightarrow> MANIFEST_DATA_READY \<in> set stages"
  by (auto simp: getManifest_reports_def dest: last_in_set)

section \<open>Claims\<close>

text \<open>
  Claim C1. For a snapshot set \<open>S\<close> whose character identifiers are pairwise distinct and
  any sequence of identifiers \<open>ids\<close>, \<open>isValidCharacterDisplayOrder\<close> is true exactly when
  \<open>ids\<close> has as many entries as \<open>S\<close> has identifiers, every entry of \<open>ids\<close> is an identifier
  of \<open>S\<close>, and every identifier of \<open>S\<close> occurs in \<open>ids\<close>; a sequence with a duplicated
  identifier is rejected.
\<close>

theorem isValidCharacterDisplayOrder_set_equality:
  assumes "distinct (map idOf S)"
  shows "(isValidCharacterDisplayOrder (Some S) ids \<longleftrightarrow>
            length ids = card (idOf ` set S) \<and>
            set ids \<subseteq> idOf ` set S \<and>
            idOf ` set S \<subseteq> set ids) \<and>
         (\<not> distinct ids \<longrightarrow> \<not> isValidCharacterDisplayOrder (Some S) ids)"
proof -
  have card_S: "card (idOf ` set S) = length S"
    using assms distinct_card [of "map idOf S"] by simp
  have iff: "isValidCharacterDisplayOrder (Some S) ids \<longleftrightarrow>
      length ids = card (idOf ` set S) \<and> set ids \<subseteq> idOf ` set S \<and> idOf ` set S \<subseteq> set ids"
    unfolding isValid_Some_sets card_S by auto
  have "distinct ids" if v: "isValidCharacterDisplayOrder (Some S) ids"
  proof -
    from v iff have "set ids = idOf ` set S" and "length ids = card (idOf ` set S)"
      by auto
    then have "card (set ids) = length ids" by simp
    then show ?thesis by (rule card_distinct)
  qed
  with iff show ?thesis by blast
qed

theorem isValidCharacterDisplayOrder_set_equality_witness:
  "distinct (map idOf [mkCharacter ''A'' 750 None, mkCharacter ''B'' 760 None]) \<and>
   isValidCharacterDisplayOrder
     (Some [mkCharacter ''A'' 750 None, mkCharacter ''B'' 760 None]) [''B'', ''A''] \<and>
   \<not> isValidCharacterDisplayOrder
     (Some [mkCharacter ''A'' 750 None, mkCharacter ''B'' 760 None]) [''A'', ''A''] \<and>
   \<not> isValidCharacterDisplayOrder
     (Some [mkCharacter ''A'' 750 None, mkCharacter ''B'' 760 None]) [''A'']"
proof -
  have d: "distinct (map idOf [mkCharacter ''A'' 750 None, mkCharacter ''B'' 760 None])"
    by (simp add: idOf_mkCharacter)
  show ?thesis
    using d
      isValidCharacterDisplayOrder_set_equality [OF d, of "[''B'', ''A'']"]
      isValidCharacterDisplayOrder_set_equality [OF d, of "[''A'', ''A'']"]
      isValidCharacterDisplayOrder_set_equality [OF d, of "[''A'']"]
    by (simp add: idOf_mkCharacter)
qed

text \<open>
  Claim C2 (as amended). With a drag in progress (a non-empty dragged identifier \<open>d\<close> is
  recorded), a target \<open>t\<close> different from \<open>d\<close>, and both \<open>d\<close> and \<open>t\<close> occurring in the
  current order (the stored order when it is non-empty, else the default order),
  \<open>dropOnCharacterId\<close> saves and sets one new order: the first position of \<open>d\<close> now holds
  \<open>t\<close>, the first position of \<open>t\<close> now holds \<open>d\<close>, every other position is unchanged, and
  the new order has the same multiset of identifiers. The new order is persisted and is
  the custom order afterwards.
\<close>

theorem dropOnCharacterId_swaps_present_ids:
  assumes drag: "draggingCharacterId s = Some d" and ne: "d \<noteq> []" and dt: "d \<noteq> t"
    and d: "d \<in> set (currentCharacterOrder s)" and t: "t \<in> set (currentCharacterOrder s)"
  shows "let cur = currentCharacterOrder s;
             i = nat (indexOf cur d);
             j = nat (indexOf cur t);
             new = swappedOrder cur d t
         in dropOnCharacterId t s = [SaveCharacterDisplayOrder new, SetCharacterDisplayOrder (Some new)] \<and>
            i < length cur \<and> j < length cur \<and> cur ! i = d \<and> cur ! j = t \<and>
            (\<forall>k<i. cur ! k \<noteq> d) \<and> (\<forall>k<j. cur ! k \<noteq> t) \<and>
            length new = length cur \<and> new ! i = t \<and> new ! j = d \<and>
            (\<forall>k<length cur. k \<noteq> i \<and> k \<noteq> j \<longrightarrow> new ! k = cur ! k) \<and>
            mset new = mset cur \<and>
            characterDisplayOrder (step (DragDrop t) s) = Some new \<and>
            persistedDisplayOrder (step (DragDrop t) s) = Some new"
proof -
  define cur where "cur = currentCharacterOrder s"
  define i where "i = nat (indexOf cur d)"
  define j where "j = nat (indexOf cur t)"
  define new where "new = swappedOrder cur d t"
  from indexOf_present [of d cur] d have i: "i < length cur" "cur ! i = d"
    by (simp_all add: cur_def i_def)
  from indexOf_present [of t cur] t have j: "j < length cur" "cur ! j = t"
    by (simp_all add: cur_def j_def)
  from i j dt have ij: "i \<noteq> j" by auto
  have first: "\<forall>k<i. cur ! k \<noteq> d" "\<forall>k<j. cur ! k \<noteq> t"
    by (simp_all add: i_def j_def indexOf_first)
  have new: "new = cur[i := t, j := d]"
    using swappedOrder_present [of d cur t] d t by (simp add: new_def cur_def i_def j_def)
  have eff: "dropOnCharacterId t s =
      [SaveCharacterDisplayOrder new, SetCharacterDisplayOrder (Some new)]"
    using drag ne dt by (simp add: dropOnCharacterId_def notDragging_def new_def cur_def Let_def)
  have len: "length new = length cur" by (simp add: new)
  have at_i: "new ! i = t" using i j ij by (simp add: new)
  have at_j: "new ! j = d" using i j by (simp add: new)
  have others: "\<forall>k<length cur. k \<noteq> i \<and> k \<noteq> j \<longrightarrow> new ! k = cur ! k"
    by (simp add: new)
  have perm: "mset new = mset cur"
    using mset_swappedOrder [of d cur t] d t by (simp add: new_def cur_def)
  have st: "characterDisplayOrder (step (DragDrop t) s) = Some new"
    "persistedDisplayOrder (step (DragDrop t) s) = Some new"
    by (simp_all add: step_def apply_effects_def eff saveCharacterDisplayOrder_def)
  from eff i j first len at_i at_j others perm st show ?thesis
    unfolding Let_def cur_def [symmetric] i_def [symmetric] j_def [symmetric] new_def [symmetric]
    by blast
qed

text \<open>The scenario of the spec: drag \<open>B\<close>, drop on \<open>A\<close>, over the snapshot set \<open>[A, B]\<close>.\<close>

theorem dropOnCharacterId_swaps_present_ids_witness:
  "draggingCharacterId (step (DragStart ''B'') loadedAB) = Some ''B'' \<and>
   currentCharacterOrder (step (DragStart ''B'') loadedAB) = [''A'', ''B''] \<and>
   dropOnCharacterId ''A'' (step (DragStart ''B'') loadedAB) =
     [SaveCharacterDisplayOrder [''B'', ''A''], SetCharacterDisplayOrder (Some [''B'', ''A''])] \<and>
   mset [''B'', ''A''] = mset [''A'', ''B''] \<and>
   characterDisplayOrder (step (DragDrop ''A'') (step (DragStart ''B'') loadedAB)) = Some [''B'', ''A''] \<and>
   persistedDisplayOrder (step (DragDrop ''A'') (step (DragStart ''B'') loadedAB)) = Some [''B'', ''A'']"
proof -
  let ?s = "step (DragStart ''B'') loadedAB"
  have drag: "draggingCharacterId ?s = Some ''B''"
    by (simp add: step_def apply_effects_def onDragStart_def)
  have cur: "currentCharacterOrder ?s = [''A'', ''B'']"
    by (simp add: step_def apply_effects_def onDragStart_def currentCharacterOrder_def
        loadedAB_eval getDefaultCharacterDisplayOrder_def snapshotAB_def idOf_mkCharacter)
  have sw: "swappedOrder [''A'', ''B''] ''B'' ''A'' = [''B'', ''A'']"
    by (simp add: swappedOrder_def splice1_def Let_def)
  have ne: "''B'' \<noteq> ([] :: string)" and dt: "''B'' \<noteq> ''A''" by simp_all
  have d: "''B'' \<in> set (currentCharacterOrder ?s)" and t: "''A'' \<in> set (currentCharacterOrder ?s)"
    by (simp_all add: cur)
  from dropOnCharacterId_swaps_present_ids [OF drag ne dt d t] drag cur sw
  show ?thesis by (simp add: Let_def)
qed

text \<open>
  Claim C2 as stated fails for an identifier that is not in the current order:
  \<open>indexOf\<close> is then \<open>-1\<close>, and \<open>splice(-1, 1, x)\<close> overwrites the last entry. With the
  order \<open>[A, B]\<close>, a recorded drag of \<open>C\<close> and a drop on \<open>A\<close>, the saved order is \<open>[C, A]\<close>:
  \<open>C\<close> was added and \<open>B\<close> removed.
\<close>

theorem dropOnCharacterId_absent_id_counterexample:
  "draggingCharacterId (step (DragStart ''C'') loadedAB) = Some ''C'' \<and>
   currentCharacterOrder (step (DragStart ''C'') loadedAB) = [''A'', ''B''] \<and>
   dropOnCharacterId ''A'' (step (DragStart ''C'') loadedAB) =
     [SaveCharacterDisplayOrder [''C'', ''A''], SetCharacterDisplayOrder (Some [''C'', ''A''])] \<and>
   mset [''C'', ''A''] \<noteq> mset [''A'', ''B'']"
proof -
  let ?s = "step (DragStart ''C'') loadedAB"
  have drag: "draggingCharacterId ?s = Some ''C''"
    by (simp add: step_def apply_effects_def onDragStart_def)
  have cur: "currentCharacterOrder ?s = [''A'', ''B'']"
    by (simp add: step_def apply_effects_def onDragStart_def currentCharacterOrder_def
        loadedAB_eval getDefaultCharacterDisplayOrder_def snapshotAB_def idOf_mkCharacter)
  have sw: "swappedOrder [''A'', ''B''] ''C'' ''A'' = [''C'', ''A'']"
    by (simp add: swappedOrder_def splice1_def Let_def)
  have eff: "dropOnCharacterId ''A'' ?s =
     [SaveCharacterDisplayOrder [''C'', ''A''], SetCharacterDisplayOrder (Some [''C'', ''A''])]"
    by (simp add: dropOnCharacterId_def drag cur sw notDragging_def Let_def)
  have "''B'' \<in># mset [''A'', ''B'']" and "''B'' \<notin># mset [''C'', ''A'']" by simp_all
  then have "mset [''C'', ''A''] \<noteq> mset [''A'', ''B'']" by metis
  with drag cur eff show ?thesis by simp
qed

text \<open>
  Claim C3. When character data is present (at least one character) and a stored custom
  order exists (a non-empty sequence): if the stored order is valid against the snapshot
  set, the render uses it and changes nothing; otherwise the render uses the default order
  (the identifiers in snapshot arrival order) and clears the stored order, the only change
  to the state. In every state whose snapshot identifiers are pairwise distinct, the
  order the render uses is a permutation of the snapshot set's identifiers.
\<close>

theorem useCharacterOrder_validated_or_default:
  "(characterData s = Some cs \<and> cs \<noteq> [] \<and> characterDisplayOrder s = Some ord \<and> ord \<noteq> [] \<longrightarrow>
      (if isValidCharacterDisplayOrder (Some cs) ord
       then useCharacterOrder s = (ord, []) \<and> step Render s = s
       else useCharacterOrder s = (map idOf cs, [SetCharacterDisplayOrder None]) \<and>
            step Render s = s\<lparr>characterDisplayOrder := None\<rparr>)) \<and>
   (distinct (getDefaultCharacterDisplayOrder (characterData s)) \<longrightarrow>
      mset (fst (useCharacterOrder s)) = mset (getDefaultCharacterDisplayOrder (characterData s)))"
proof (intro conjI impI)
  assume h: "characterData s = Some cs \<and> cs \<noteq> [] \<and> characterDisplayOrder s = Some ord \<and> ord \<noteq> []"
  then show "if isValidCharacterDisplayOrder (Some cs) ord
       then useCharacterOrder s = (ord, []) \<and> step Render s = s
       else useCharacterOrder s = (map idOf cs, [SetCharacterDisplayOrder None]) \<and>
            step Render s = s\<lparr>characterDisplayOrder := None\<rparr>"
    by (simp add: useCharacterOrder_def getDefaultCharacterDisplayOrder_def step_def
        apply_effects_def Let_def)
next
  assume dist: "distinct (getDefaultCharacterDisplayOrder (characterData s))"
  show "mset (fst (useCharacterOrder s)) = mset (getDefaultCharacterDisplayOrder (characterData s))"
  proof (cases "fst (useCharacterOrder s) = getDefaultCharacterDisplayOrder (characterData s)")
    case True
    then show ?thesis by simp
  next
    case False
    then obtain cs ord where cd: "characterData s = Some cs"
      and res: "fst (useCharacterOrder s) = ord"
      and v: "isValidCharacterDisplayOrder (Some cs) ord"
      by (auto simp: useCharacterOrder_def Let_def split: option.splits if_splits)
    from dist cd have "distinct (map idOf cs)"
      by (simp add: getDefaultCharacterDisplayOrder_def)
    from isValid_distinct_mset [OF v this] cd res show ?thesis
      by (simp add: getDefaultCharacterDisplayOrder_def)
  qed
qed

text \<open>
  A valid stored order \<open>[B, A]\<close> and the stale order \<open>[X, Y]\<close> of the spec's scenario, both
  against the snapshot set \<open>[A, B]\<close>.
\<close>

theorem useCharacterOrder_validated_or_default_witness:
  "useCharacterOrder (loadedAB\<lparr>characterDisplayOrder := Some [''B'', ''A'']\<rparr>) = ([''B'', ''A''], []) \<and>
   useCharacterOrder (loadedAB\<lparr>characterDisplayOrder := Some [''X'', ''Y'']\<rparr>)
     = ([''A'', ''B''], [SetCharacterDisplayOrder None]) \<and>
   characterDisplayOrder (step Render (loadedAB\<lparr>characterDisplayOrder := Some [''X'', ''Y'']\<rparr>)) = None \<and>
   mset (fst (useCharacterOrder (loadedAB\<lparr>characterDisplayOrder := Some [''B'', ''A'']\<rparr>)))
     = mset [''A'', ''B'']"
proof -
  let ?v = "loadedAB\<lparr>characterDisplayOrder := Some [''B'', ''A'']\<rparr>"
  let ?w = "loadedAB\<lparr>characterDisplayOrder := Some [''X'', ''Y'']\<rparr>"
  have ids: "map idOf snapshotAB = [''A'', ''B'']"
    by (simp add: snapshotAB_def idOf_mkCharacter)
  have hv: "characterData ?v = Some snapshotAB \<and> snapshotAB \<noteq> [] \<and>
      characterDisplayOrder ?v = Some [''B'', ''A''] \<and> [''B'', ''A''] \<noteq> []"
    by (simp add: loadedAB_eval snapshotAB_def)
  have hw: "characterData ?w = Some snapshotAB \<and> snapshotAB \<noteq> [] \<and>
      characterDisplayOrder ?w = Some [''X'', ''Y''] \<and> [''X'', ''Y''] \<noteq> []"
    by (simp add: loadedAB_eval snapshotAB_def)
  have valid: "isValidCharacterDisplayOrder (Some snapshotAB) [''B'', ''A'']"
    by (simp add: isValid_Some_sets snapshotAB_def idOf_mkCharacter)
  have invalid: "\<not> isValidCharacterDisplayOrder (Some snapshotAB) [''X'', ''Y'']"
    by (simp add: isValid_Some_sets snapshotAB_def idOf_mkCharacter)
  have dist: "distinct (getDefaultCharacterDisplayOrder (characterData ?v))"
    by (simp add: loadedAB_eval getDefaultCharacterDisplayOrder_def ids)
  from useCharacterOrder_validated_or_default [of ?v snapshotAB "[''B'', ''A'']"]
       useCharacterOrder_validated_or_default [of ?w snapshotAB "[''X'', ''Y'']"]
       hv hw valid invalid dist
  show ?thesis
    by (simp add: ids loadedAB_eval getDefaultCharacterDisplayOrder_def)
qed

text \<open>
  Claim C4. The status is a function of the state, decided by strict precedence:
  system-disabled, then service-unavailable, then auth-error, then manifest-error, then
  not authed (\<open>Authenticating...\<close>), then no membership selected, then manifest not ready
  (the manifest sub-stage text), then no character data (\<open>Fetching character data...\<close>
  while fetching, \<open>No character data\<close> otherwise), then the empty status. Each line below
  is one rank: it applies when no higher rank does. With the system-disabled flag set the
  status is the system-disabled message whatever the other flags are.
\<close>

theorem status_precedence:
  "(isBungieSystemDisabled s \<longrightarrow> status s = BungieApiDisabled) \<and>
   (\<not> isBungieSystemDisabled s \<and> isBungieServiceUnavailable s \<longrightarrow>
      status s = BungieApiUnavailable) \<and>
   (\<not> isBungieSystemDisabled s \<and> \<not> isBungieServiceUnavailable s \<and> hasAuthError s \<longrightarrow>
      status s = AuthenticationRequired) \<and>
   (\<not> isBungieSystemDisabled s \<and> \<not> isBungieServiceUnavailable s \<and> \<not> hasAuthError s \<and>
    hasManifestError s \<longrightarrow>
      status s = ManifestFetchError) \<and>
   (\<not> isBungieSystemDisabled s \<and> \<not> isBungieServiceUnavailable s \<and> \<not> hasAuthError s \<and>
    \<not> hasManifestError s \<and> \<not> isAuthed s \<longrightarrow>
      status s = StatusText ''Authenticating...'') \<and>
   (\<not> isBungieSystemDisabled s \<and> \<not> isBungieServiceUnavailable s \<and> \<not> hasAuthError s \<and>
    \<not> hasManifestError s \<and> isAuthed s \<and> \<not> hasSelectedMembership s \<longrightarrow>
      status s = StatusText ''Waiting for Destiny platform selection...'') \<and>
   (\<not> isBungieSystemDisabled s \<and> \<not> isBungieServiceUnavailable s \<and> \<not> hasAuthError s \<and>
    \<not> hasManifestError s \<and> isAuthed s \<and> hasSelectedMembership s \<and> \<not> hasManifestData s \<longrightarrow>
      status s = StatusText (manifestState s)) \<and>
   (\<not> isBungieSystemDisabled s \<and> \<not> isBungieServiceUnavailable s \<and> \<not> hasAuthError s \<and>
    \<not> hasManifestError s \<and> isAuthed s \<and> hasSelectedMembership s \<and> hasManifestData s \<and>
    noCharacterData s \<and> isFetchingCharacterData s \<longrightarrow>
      status s = StatusText ''Fetching character data...'') \<and>
   (\<not> isBungieSystemDisabled s \<and> \<not> isBungieServiceUnavailable s \<and> \<not> hasAuthError s \<and>
    \<not> hasManifestError s \<and> isAuthed s \<and> hasSelectedMembership s \<and> hasManifestData s \<and>
    noCharacterData s \<and> \<not> isFetchingCharacterData s \<longrightarrow>
      status s = StatusText ''No character data'') \<and>
   (\<not> isBungieSystemDisabled s \<and> \<not> isBungieServiceUnavailable s \<and> \<not> hasAuthError s \<and>
    \<not> hasManifestError s \<and> isAuthed s \<and> hasSelectedMembership s \<and> hasManifestData s \<and>
    \<not> noCharacterData s \<longrightarrow>
      status s = StatusText [])"
  by (simp add: status_def)

text \<open>One state per rank, each with lower-ranked conditions set as well.\<close>

theorem status_precedence_witness:
  "status (loadedAB\<lparr>hasAuthError := True, hasManifestError := True,
      isBungieSystemDisabled := True, isBungieServiceUnavailable := True\<rparr>) = BungieApiDisabled \<and>
   status (loadedAB\<lparr>hasAuthError := True, hasManifestError := True,
      isBungieServiceUnavailable := True\<rparr>) = BungieApiUnavailable \<and>
   status (loadedAB\<lparr>hasAuthError := True, hasManifestError := True\<rparr>) = AuthenticationRequired \<and>
   status (loadedAB\<lparr>isAuthed := False, hasManifestError := True\<rparr>) = ManifestFetchError \<and>
   status (loadedAB\<lparr>isAuthed := False, hasSelectedMembership := False\<rparr>)
     = StatusText ''Authenticating...'' \<and>
   status (loadedAB\<lparr>hasSelectedMembership := False\<rparr>)
     = StatusText ''Waiting for Destiny platform selection...'' \<and>
   status (loadedAB\<lparr>manifestState := ''Loading manifest data''\<rparr>)
     = StatusText ''Loading manifest data'' \<and>
   status (loadedAB\<lparr>isFetchingCharacterData := True, characterData := None,
      manifestState := ''Manifest ready''\<rparr>) = StatusText ''Fetching character data...'' \<and>
   status (loadedAB\<lparr>characterData := Some [], manifestState := ''Manifest ready''\<rparr>)
     = StatusText ''No character data'' \<and>
   status (loadedAB\<lparr>manifestState := ''Manifest ready''\<rparr>) = StatusText []"
  using
    status_precedence [of "loadedAB\<lparr>hasAuthError := True, hasManifestError := True,
      isBungieSystemDisabled := True, isBungieServiceUnavailable := True\<rparr>"]
    status_precedence [of "loadedAB\<lparr>hasAuthError := True, hasManifestError := True,
      isBungieServiceUnavailable := True\<rparr>"]
    status_precedence [of "loadedAB\<lparr>hasAuthError := True, hasManifestError := True\<rparr>"]
    status_precedence [of "loadedAB\<lparr>isAuthed := False, hasManifestError := True\<rparr>"]
    status_precedence [of "loadedAB\<lparr>isAuthed := False, hasSelectedMembership := False\<rparr>"]
    status_precedence [of "loadedAB\<lparr>hasSelectedMembership := False\<rparr>"]
    status_precedence [of "loadedAB\<lparr>manifestState := ''Loading manifest data''\<rparr>"]
    status_precedence [of "loadedAB\<lparr>isFetchingCharacterData := True, characterData := None,
      manifestState := ''Manifest ready''\<rparr>"]
    status_precedence [of "loadedAB\<lparr>characterData := Some [], manifestState := ''Manifest ready''\<rparr>"]
    status_precedence [of "loadedAB\<lparr>manifestState := ''Manifest ready''\<rparr>"]
  by (simp add: loadedAB_fields hasManifestData_def noCharacterData_def snapshotAB_def)

text \<open>
  Claim C5. For every delivered snapshot set, \<open>updateCharacterData\<close> computes the overall
  power as the maximum of the snapshots' overall powers, the artifact power as the maximum
  of their artifact bonus powers with a missing artifact counted as 0, and the total
  power as the sum of the two as the operator \<open>+\<close> computes it: the double nearest to the
  exact sum, which is the exact sum whenever its magnitude is below \<open>2^53\<close>. It reports
  the three values to analytics first, each through a template literal, and publishes the
  snapshot set second. Over no snapshots the maximum is what \<open>Math.max()\<close> gives,
  \<open>-Infinity\<close>, and so is the sum.
\<close>

theorem updateCharacterData_metrics:
  "(let overall = Max (overallPower ` set newData);
        artifact = Max ((\<lambda>c. case artifactData c of None \<Rightarrow> 0 | Some a \<Rightarrow> bonusPower a)
                          ` set newData)
    in (newData \<noteq> [] \<longrightarrow>
          newOverallPower newData = Num overall \<and>
          newArtifactPower newData = Num artifact \<and>
          newTotalPower newData = toDouble (overall + artifact) \<and>
          (\<bar>overall + artifact\<bar> < 2 ^ 53 \<longrightarrow> newTotalPower newData = Num (overall + artifact)))) \<and>
   (newData = [] \<longrightarrow>
      newOverallPower newData = NegInfinity \<and> newArtifactPower newData = NegInfinity \<and>
      newTotalPower newData = NegInfinity) \<and>
   updateCharacterData newData =
     [GaSet (TemplateLiteral [] (newOverallPower newData))
            (TemplateLiteral [] (newArtifactPower newData))
            (TemplateLiteral [] (newTotalPower newData)),
      SetCharacterData newData] \<and>
   step (CharacterDataDelivered newData) s = s\<lparr>characterData := Some newData\<rparr>"
  unfolding Let_def
  by (simp add: newOverallPower_def newArtifactPower_def newTotalPower_def mathMax_Num
      artifactBonusOrZero_def [abs_def] toDouble_exact updateCharacterData_def step_def
      apply_effects_def)

text \<open>
  The spec's example (powers 700 and 720, artifact bonuses 50 and 40, reported as 720,
  50 and 770); a missing artifact beside a negative bonus; two sums above \<open>2^53\<close>, where
  the double nearest to the exact sum is reported; and no snapshots.
\<close>

theorem updateCharacterData_metrics_witness:
  "newOverallPower [mkCharacter ''A'' 700 (Some 50), mkCharacter ''B'' 720 (Some 40)] = Num 720 \<and>
   newArtifactPower [mkCharacter ''A'' 700 (Some 50), mkCharacter ''B'' 720 (Some 40)] = Num 50 \<and>
   newTotalPower [mkCharacter ''A'' 700 (Some 50), mkCharacter ''B'' 720 (Some 40)] = Num 770 \<and>
   updateCharacterData [mkCharacter ''A'' 700 (Some 50), mkCharacter ''B'' 720 (Some 40)] =
     [GaSet (TemplateLiteral [] (Num 720)) (TemplateLiteral [] (Num 50))
        (TemplateLiteral [] (Num 770)),
      SetCharacterData [mkCharacter ''A'' 700 (Some 50), mkCharacter ''B'' 720 (Some 40)]] \<and>
   newArtifactPower [mkCharacter ''A'' 700 (Some (- 5)), mkCharacter ''B'' 720 None] = Num 0 \<and>
   newTotalPower [mkCharacter ''A'' 700 (Some (- 5)), mkCharacter ''B'' 720 None] = Num 720 \<and>
   newTotalPower [mkCharacter ''A'' 9007199254740992 (Some 1)] = Num 9007199254740992 \<and>
   newTotalPower [mkCharacter ''A'' 9007199254740994 (Some 1)] = Num 9007199254740996 \<and>
   newOverallPower [] = NegInfinity \<and> newTotalPower [] = NegInfinity"
proof -
  have r1: "toDouble 9007199254740993 = Num 9007199254740992" by code_simp
  have r2: "toDouble 9007199254740995 = Num 9007199254740996" by code_simp
  from updateCharacterData_metrics
         [of "[mkCharacter ''A'' 700 (Some 50), mkCharacter ''B'' 720 (Some 40)]" loadedAB]
       updateCharacterData_metrics
         [of "[mkCharacter ''A'' 700 (Some (- 5)), mkCharacter ''B'' 720 None]" loadedAB]
       updateCharacterData_metrics [of "[mkCharacter ''A'' 9007199254740992 (Some 1)]" loadedAB]
       updateCharacterData_metrics [of "[mkCharacter ''A'' 9007199254740994 (Some 1)]" loadedAB]
       updateCharacterData_metrics [of "[]" loadedAB]
  show ?thesis
    by (simp add: mkCharacter_def r1 r2 toDouble_exact)
qed

text \<open>
  Claim C6. A manifest fetch is the notifications it reports followed by the body of
  \<open>doGetManifest\<close> with its result. If the fetch returns an error, the manifest-error flag
  is set, the system-disabled flag is set by the fetch exactly when the error is a
  \<open>BungieSystemDisabledError\<close>, the service-unavailable flag is set by the fetch exactly when
  the error message is \<open>503\<close>, and no manifest data is stored. If the fetch succeeds, having
  reported ready, the manifest data is stored and the manifest-error flag is cleared:
  \<open>doGetManifest\<close> stores the data, and the handler of the ready notification clears the
  flag. The third outcome, \<open>getManifest\<close> throwing, sets the manifest-error flag only: the
  thrown error is not classified and no manifest data is stored.
\<close>

theorem doGetManifest_outcomes:
  "step (ManifestSettled (ManifestErrorResult e)) s =
     s\<lparr>hasManifestError := True,
       isBungieSystemDisabled := isBungieSystemDisabled s \<or> isBungieSystemDisabledError e,
       isBungieServiceUnavailable := isBungieServiceUnavailable s \<or> message e = ''503''\<rparr> \<and>
   SetManifestError True \<in> set (doGetManifest (ManifestErrorResult e)) \<and>
   (SetBungieSystemDisabled True \<in> set (doGetManifest (ManifestErrorResult e))
      \<longleftrightarrow> isBungieSystemDisabledError e) \<and>
   (SetBungieServiceUnavailable True \<in> set (doGetManifest (ManifestErrorResult e))
      \<longleftrightarrow> message e = ''503'') \<and>
   SetManifestData m' \<notin> set (doGetManifest (ManifestErrorResult e)) \<and>
   hasManifestError (run (manifestFetch stages (ManifestErrorResult e)) s) \<and>
   isBungieSystemDisabled (run (manifestFetch stages (ManifestErrorResult e)) s)
     = (isBungieSystemDisabled s \<or> isBungieSystemDisabledError e) \<and>
   isBungieServiceUnavailable (run (manifestFetch stages (ManifestErrorResult e)) s)
     = (isBungieServiceUnavailable s \<or> message e = ''503'') \<and>
   manifestData (run (manifestFetch stages (ManifestErrorResult e)) s) = manifestData s \<and>
   step (ManifestSettled (ManifestOk m)) s = s\<lparr>manifestData := Some m\<rparr> \<and>
   (getManifest_reports stages (ManifestOk m) \<longrightarrow>
      manifestData (run (manifestFetch stages (ManifestOk m)) s) = Some m \<and>
      \<not> hasManifestError (run (manifestFetch stages (ManifestOk m)) s) \<and>
      isBungieSystemDisabled (run (manifestFetch stages (ManifestOk m)) s)
        = isBungieSystemDisabled s \<and>
      isBungieServiceUnavailable (run (manifestFetch stages (ManifestOk m)) s)
        = isBungieServiceUnavailable s) \<and>
   step (ManifestSettled (ManifestThrown e)) s = s\<lparr>hasManifestError := True\<rparr> \<and>
   hasManifestError (run (manifestFetch stages (ManifestThrown e)) s) \<and>
   isBungieSystemDisabled (run (manifestFetch stages (ManifestThrown e)) s)
     = isBungieSystemDisabled s \<and>
   isBungieServiceUnavailable (run (manifestFetch stages (ManifestThrown e)) s)
     = isBungieServiceUnavailable s \<and>
   manifestData (run (manifestFetch stages (ManifestThrown e)) s) = manifestData s"
proof -
  define t where "t = run (map Notified stages) s"
  have frame: "manifestData t = manifestData s"
    "isBungieSystemDisabled t = isBungieSystemDisabled s"
    "isBungieServiceUnavailable t = isBungieServiceUnavailable s"
    using run_Notified_frame [of stages s] by (simp_all add: t_def)
  have fetch: "run (manifestFetch stages outcome) s = step (ManifestSettled outcome) t"
    for outcome
    by (simp add: manifestFetch_def run_append run_Cons run_Nil t_def)
  have steps:
    "step (ManifestSettled (ManifestErrorResult e)) u =
       u\<lparr>hasManifestError := True,
         isBungieSystemDisabled := isBungieSystemDisabled u \<or> isBungieSystemDisabledError e,
         isBungieServiceUnavailable := isBungieServiceUnavailable u \<or> message e = ''503''\<rparr>"
    "step (ManifestSettled (ManifestOk m)) u = u\<lparr>manifestData := Some m\<rparr>"
    "step (ManifestSettled (ManifestThrown e)) u = u\<lparr>hasManifestError := True\<rparr>"
    for u
    by (simp_all add: step_def apply_effects_def)
  have calls:
    "SetManifestError True \<in> set (doGetManifest (ManifestErrorResult e))"
    "SetBungieSystemDisabled True \<in> set (doGetManifest (ManifestErrorResult e))
      \<longleftrightarrow> isBungieSystemDisabledError e"
    "SetBungieServiceUnavailable True \<in> set (doGetManifest (ManifestErrorResult e))
      \<longleftrightarrow> message e = ''503''"
    "SetManifestData m' \<notin> set (doGetManifest (ManifestErrorResult e))"
    by simp_all
  have ok: "\<not> hasManifestError t" if "getManifest_reports stages (ManifestOk m)"
    using run_Notified_ready_clears [of stages s] getManifest_reports_ready [OF that]
    by (simp add: t_def)
  show ?thesis
    unfolding fetch
    using calls ok by (simp add: steps frame)
qed

text \<open>
  A successful fetch that starts with the manifest-error flag set, and from the loaded
  state a \<open>503\<close> error, a system-disabled error, another error, and a thrown error.
\<close>

theorem doGetManifest_outcomes_witness:
  "getManifest_reports
     [GET_MANIFEST, FETCH_MANIFEST_DATA, PARSE_MANIFEST_DATA, STORE_MANIFEST_DATA,
      MANIFEST_DATA_READY] (ManifestOk (ManifestData 7)) \<and>
   hasManifestError (loadedAB\<lparr>hasManifestError := True\<rparr>) \<and>
   \<not> hasManifestError
     (run (manifestFetch
        [GET_MANIFEST, FETCH_MANIFEST_DATA, PARSE_MANIFEST_DATA, STORE_MANIFEST_DATA,
         MANIFEST_DATA_READY] (ManifestOk (ManifestData 7)))
        (loadedAB\<lparr>hasManifestError := True\<rparr>)) \<and>
   manifestData
     (run (manifestFetch
        [GET_MANIFEST, FETCH_MANIFEST_DATA, PARSE_MANIFEST_DATA, STORE_MANIFEST_DATA,
         MANIFEST_DATA_READY] (ManifestOk (ManifestData 7)))
        (loadedAB\<lparr>hasManifestError := True\<rparr>)) = Some (ManifestData 7) \<and>
   step (ManifestSettled (ManifestErrorResult (Error ''503''))) loadedAB =
     loadedAB\<lparr>hasManifestError := True, isBungieServiceUnavailable := True\<rparr> \<and>
   step (ManifestSettled (ManifestErrorResult (BungieSystemDisabledError ''disabled''))) loadedAB =
     loadedAB\<lparr>hasManifestError := True, isBungieSystemDisabled := True\<rparr> \<and>
   step (ManifestSettled (ManifestErrorResult (Error ''timeout''))) loadedAB =
     loadedAB\<lparr>hasManifestError := True\<rparr> \<and>
   step (ManifestSettled (ManifestThrown (BungieSystemDisabledError ''503''))) loadedAB =
     loadedAB\<lparr>hasManifestError := True\<rparr>"
proof -
  let ?stages = "[GET_MANIFEST, FETCH_MANIFEST_DATA, PARSE_MANIFEST_DATA, STORE_MANIFEST_DATA,
      MANIFEST_DATA_READY]"
  have reports: "getManifest_reports ?stages (ManifestOk (ManifestData 7))"
    by (simp add: getManifest_reports_def manifestStages_def)
  from reports
    doGetManifest_outcomes
      [of "Error ''503''" loadedAB "ManifestData 7" ?stages "ManifestData 7"]
    doGetManifest_outcomes
      [of "Error ''503''" "loadedAB\<lparr>hasManifestError := True\<rparr>" "ManifestData 7" ?stages
        "ManifestData 7"]
    doGetManifest_outcomes
      [of "BungieSystemDisabledError ''disabled''" loadedAB "ManifestData 7" ?stages
        "ManifestData 7"]
    doGetManifest_outcomes
      [of "Error ''timeout''" loadedAB "ManifestData 7" ?stages "ManifestData 7"]
    doGetManifest_outcomes
      [of "BungieSystemDisabledError ''503''" loadedAB "ManifestData 7" ?stages "ManifestData 7"]
  show ?thesis
    by (simp add: loadedAB_fields)
qed

text \<open>
  Claim C7 (as amended). Over every sequence of actions of the controller: the
  system-disabled flag, once set, stays set and the status stays the system-disabled
  message; the service-unavailable flag, once set, stays set and the status is one of the
  two Bungie messages; no action clears either flag, a successful manifest fetch
  included. The auth-error flag, once set, stays set as long as no auth attempt succeeds,
  and a successful auth attempt clears it. The manifest-error flag, once set, stays set as
  long as no \<open>GET_MANIFEST\<close> or \<open>MANIFEST_DATA_READY\<close> notification arrives, and each of the
  two clears it.
\<close>

theorem sticky_flags:
  "(isBungieSystemDisabled s \<longrightarrow>
      isBungieSystemDisabled (run acts s) \<and> status (run acts s) = BungieApiDisabled) \<and>
   (isBungieServiceUnavailable s \<longrightarrow>
      isBungieServiceUnavailable (run acts s) \<and>
      (status (run acts s) = BungieApiDisabled \<or> status (run acts s) = BungieApiUnavailable)) \<and>
   (hasAuthError s \<and> AuthSettled (AuthResolved True) \<notin> set acts \<longrightarrow> hasAuthError (run acts s)) \<and>
   \<not> hasAuthError (step (AuthSettled (AuthResolved True)) s) \<and>
   (hasManifestError s \<and> Notified GET_MANIFEST \<notin> set acts \<and>
    Notified MANIFEST_DATA_READY \<notin> set acts \<longrightarrow> hasManifestError (run acts s)) \<and>
   \<not> hasManifestError (step (Notified GET_MANIFEST) s) \<and>
   \<not> hasManifestError (step (Notified MANIFEST_DATA_READY) s)"
proof (intro conjI impI)
  assume "isBungieSystemDisabled s"
  then show "isBungieSystemDisabled (run acts s)" by (rule run_keeps_system_disabled)
  then show "status (run acts s) = BungieApiDisabled" by (simp add: status_def)
next
  assume "isBungieServiceUnavailable s"
  then show "isBungieServiceUnavailable (run acts s)" by (rule run_keeps_service_unavailable)
  then show "status (run acts s) = BungieApiDisabled \<or> status (run acts s) = BungieApiUnavailable"
    by (simp add: status_def)
next
  assume "hasAuthError s \<and> AuthSettled (AuthResolved True) \<notin> set acts"
  then show "hasAuthError (run acts s)" by (simp add: run_keeps_auth_error)
next
  assume "hasManifestError s \<and> Notified GET_MANIFEST \<notin> set acts \<and>
    Notified MANIFEST_DATA_READY \<notin> set acts"
  then show "hasManifestError (run acts s)" by (simp add: run_keeps_manifest_error)
qed (simp_all add: step_def apply_effects_def)

text \<open>Each flag set in the loaded state, followed by actions that do not clear it.\<close>

theorem sticky_flags_witness:
  "isBungieSystemDisabled (loadedAB\<lparr>isBungieSystemDisabled := True\<rparr>) \<and>
   status (run [Notified GET_MANIFEST, Notified MANIFEST_DATA_READY,
                ManifestSettled (ManifestOk (ManifestData 7))]
             (loadedAB\<lparr>isBungieSystemDisabled := True\<rparr>)) = BungieApiDisabled \<and>
   isBungieServiceUnavailable
     (run [ManifestSettled (ManifestOk (ManifestData 7))]
        (loadedAB\<lparr>isBungieServiceUnavailable := True\<rparr>)) \<and>
   hasAuthError (run [AuthSettled (AuthResolved False), Notified LOG_OUT]
                   (loadedAB\<lparr>hasAuthError := True\<rparr>)) \<and>
   hasManifestError (run [ManifestSettled (ManifestOk (ManifestData 7))]
                       (loadedAB\<lparr>hasManifestError := True\<rparr>))"
  using
    sticky_flags [of "loadedAB\<lparr>isBungieSystemDisabled := True\<rparr>"
      "[Notified GET_MANIFEST, Notified MANIFEST_DATA_READY,
        ManifestSettled (ManifestOk (ManifestData 7))]"]
    sticky_flags [of "loadedAB\<lparr>isBungieServiceUnavailable := True\<rparr>"
      "[ManifestSettled (ManifestOk (ManifestData 7))]"]
    sticky_flags [of "loadedAB\<lparr>hasAuthError := True\<rparr>"
      "[AuthSettled (AuthResolved False), Notified LOG_OUT]"]
    sticky_flags [of "loadedAB\<lparr>hasManifestError := True\<rparr>"
      "[ManifestSettled (ManifestOk (ManifestData 7))]"]
  by simp

text \<open>
  Claim C7 as stated fails for the system-disabled and service-unavailable flags: after a
  failed manifest fetch has set both, a complete successful manifest fetch (its
  notifications and its result) leaves both set, and the status is still the
  system-disabled message.
\<close>

theorem system_disabled_survives_manifest_success_counterexample:
  "isBungieSystemDisabled
     (run [ManifestSettled (ManifestErrorResult (BungieSystemDisabledError ''503'')),
           Notified GET_MANIFEST, Notified MANIFEST_DATA_READY,
           ManifestSettled (ManifestOk (ManifestData 7))] loadedAB) \<and>
   isBungieServiceUnavailable
     (run [ManifestSettled (ManifestErrorResult (BungieSystemDisabledError ''503'')),
           Notified GET_MANIFEST, Notified MANIFEST_DATA_READY,
           ManifestSettled (ManifestOk (ManifestData 7))] loadedAB) \<and>
   status
     (run [ManifestSettled (ManifestErrorResult (BungieSystemDisabledError ''503'')),
           Notified GET_MANIFEST, Notified MANIFEST_DATA_READY,
           ManifestSettled (ManifestOk (ManifestData 7))] loadedAB) = BungieApiDisabled"
  by (simp add: run_def step_def apply_effects_def status_def)

text \<open>
  Claim C8. \<open>onDragEnd\<close> twice leaves the state that \<open>onDragEnd\<close> once leaves (the dragged
  identifier cleared, nothing else changed). \<open>dropOnCharacterId\<close> with no drag recorded, or
  with the target equal to the dragged identifier, makes no call at all: no save, and the
  state, the display order and the persisted order included, is unchanged.
\<close>

theorem drag_noops:
  "step DragEnd (step DragEnd s) = step DragEnd s \<and>
   step DragEnd s = s\<lparr>draggingCharacterId := None\<rparr> \<and>
   (notDragging (draggingCharacterId s) \<or> draggingCharacterId s = Some t \<longrightarrow>
      dropOnCharacterId t s = [] \<and> step (DragDrop t) s = s)"
  by (auto simp: step_def apply_effects_def onDragEnd_def dropOnCharacterId_def notDragging_def
      split: option.splits)

text \<open>A drop with no drag recorded, and a drop of \<open>A\<close> on itself.\<close>

theorem drag_noops_witness:
  "notDragging (draggingCharacterId loadedAB) \<and>
   dropOnCharacterId ''A'' loadedAB = [] \<and>
   step (DragDrop ''A'') loadedAB = loadedAB \<and>
   draggingCharacterId (loadedAB\<lparr>draggingCharacterId := Some ''A''\<rparr>) = Some ''A'' \<and>
   dropOnCharacterId ''A'' (loadedAB\<lparr>draggingCharacterId := Some ''A''\<rparr>) = [] \<and>
   step (DragDrop ''A'') (loadedAB\<lparr>draggingCharacterId := Some ''A''\<rparr>)
     = loadedAB\<lparr>draggingCharacterId := Some ''A''\<rparr>"
  using drag_noops [of loadedAB "''A''"]
    drag_noops [of "loadedAB\<lparr>draggingCharacterId := Some ''A''\<rparr>" "''A''"]
  by (simp add: loadedAB_fields notDragging_def)

text \<open>
  Claim C9 (as amended). The recorded dragged identifier is a single optional value.
  \<open>DragStart i\<close> records exactly \<open>i\<close>; \<open>DragEnd\<close> clears it; every other action, a drop
  included, leaves it as it was: after a drop the controller is still dragging, until
  \<open>DragEnd\<close>.
\<close>

theorem dragging_transitions:
  "draggingCharacterId (step a s) =
     (case a of
        DragStart i \<Rightarrow> Some i
      | DragEnd \<Rightarrow> None
      | _ \<Rightarrow> draggingCharacterId s)"
proof (cases a)
  case (DragStart i)
  then show ?thesis by (simp add: step_def apply_effects_def onDragStart_def)
next
  case DragEnd
  then show ?thesis by (simp add: step_def apply_effects_def onDragEnd_def)
qed (simp_all add: step_keeps_dragging)

text \<open>One gesture: idle, drag \<open>B\<close>, drop on \<open>A\<close>, drag end.\<close>

theorem dragging_transitions_witness:
  "draggingCharacterId loadedAB = None \<and>
   draggingCharacterId (step (DragStart ''B'') loadedAB) = Some ''B'' \<and>
   draggingCharacterId (step (DragDrop ''A'') (step (DragStart ''B'') loadedAB)) = Some ''B'' \<and>
   draggingCharacterId (step DragEnd (step (DragDrop ''A'') (step (DragStart ''B'') loadedAB))) = None"
  using dragging_transitions [of "DragStart ''B''" loadedAB]
    dragging_transitions [of "DragDrop ''A''" "step (DragStart ''B'') loadedAB"]
    dragging_transitions [of DragEnd "step (DragDrop ''A'') (step (DragStart ''B'') loadedAB)"]
  by (simp add: loadedAB_fields)

text \<open>
  Claim C9 as stated fails at the drop: with \<open>B\<close> dragged over the order \<open>[A, B]\<close> and
  dropped on \<open>A\<close>, the swap is made and \<open>B\<close> is still recorded as dragged.
\<close>

theorem drop_keeps_dragging_counterexample:
  "draggingCharacterId (step (DragDrop ''A'') (step (DragStart ''B'') loadedAB)) = Some ''B'' \<and>
   characterDisplayOrder (step (DragStart ''B'') loadedAB) = None \<and>
   characterDisplayOrder (step (DragDrop ''A'') (step (DragStart ''B'') loadedAB))
     = Some [''B'', ''A'']"
proof -
  let ?s = "step (DragStart ''B'') loadedAB"
  have s: "?s = loadedAB\<lparr>draggingCharacterId := Some ''B''\<rparr>"
    by (simp add: step_def apply_effects_def onDragStart_def)
  have cur: "currentCharacterOrder ?s = [''A'', ''B'']"
    unfolding s
    by (simp add: currentCharacterOrder_def loadedAB_fields
        getDefaultCharacterDisplayOrder_def snapshotAB_def idOf_mkCharacter)
  have sw: "swappedOrder [''A'', ''B''] ''B'' ''A'' = [''B'', ''A'']"
    by (simp add: swappedOrder_def splice1_def Let_def)
  have eff: "dropOnCharacterId ''A'' ?s =
     [SaveCharacterDisplayOrder [''B'', ''A''], SetCharacterDisplayOrder (Some [''B'', ''A''])]"
    unfolding dropOnCharacterId_def cur unfolding s by (simp add: notDragging_def Let_def sw)
  show ?thesis
    unfolding step_def [of "DragDrop ''A''"] handle.simps eff
    unfolding s by (simp add: apply_effects_def loadedAB_fields)
qed

text \<open>
  Claim C10. An empty stored order behaves as no stored order: the render uses the default
  order and makes the same calls (none) as with no stored order, so the empty order is not
  cleared; \<open>dropOnCharacterId\<close> makes the same calls as with no stored order, swapping in
  the default order; and the empty order is not validated: against a non-empty snapshot
  set it would fail the validation, yet it is kept.
\<close>

theorem empty_stored_order_as_none:
  "useCharacterOrder (s\<lparr>characterDisplayOrder := Some []\<rparr>) =
     (getDefaultCharacterDisplayOrder (characterData s), []) \<and>
   useCharacterOrder (s\<lparr>characterDisplayOrder := Some []\<rparr>) =
     useCharacterOrder (s\<lparr>characterDisplayOrder := None\<rparr>) \<and>
   step Render (s\<lparr>characterDisplayOrder := Some []\<rparr>) = s\<lparr>characterDisplayOrder := Some []\<rparr> \<and>
   currentCharacterOrder (s\<lparr>characterDisplayOrder := Some []\<rparr>) =
     getDefaultCharacterDisplayOrder (characterData s) \<and>
   dropOnCharacterId t (s\<lparr>characterDisplayOrder := Some []\<rparr>) =
     dropOnCharacterId t (s\<lparr>characterDisplayOrder := None\<rparr>) \<and>
   (draggingCharacterId s = Some d \<and> d \<noteq> [] \<and> d \<noteq> t \<longrightarrow>
      dropOnCharacterId t (s\<lparr>characterDisplayOrder := Some []\<rparr>) =
        [SaveCharacterDisplayOrder
           (swappedOrder (getDefaultCharacterDisplayOrder (characterData s)) d t),
         SetCharacterDisplayOrder
           (Some (swappedOrder (getDefaultCharacterDisplayOrder (characterData s)) d t))]) \<and>
   (characterData s = Some cs \<and> cs \<noteq> [] \<longrightarrow>
      \<not> isValidCharacterDisplayOrder (characterData s) [])"
  by (auto simp: useCharacterOrder_def step_def apply_effects_def currentCharacterOrder_def
      dropOnCharacterId_def notDragging_def isValid_Some_sets Let_def split: option.splits)

text \<open>The snapshot set \<open>[A, B]\<close> with an empty stored order, idle and with \<open>B\<close> dragged.\<close>

theorem empty_stored_order_as_none_witness:
  "useCharacterOrder (loadedAB\<lparr>characterDisplayOrder := Some []\<rparr>) = ([''A'', ''B''], []) \<and>
   characterDisplayOrder (step Render (loadedAB\<lparr>characterDisplayOrder := Some []\<rparr>)) = Some [] \<and>
   \<not> isValidCharacterDisplayOrder (Some snapshotAB) [] \<and>
   dropOnCharacterId ''A''
     (loadedAB\<lparr>draggingCharacterId := Some ''B'', characterDisplayOrder := Some []\<rparr>) =
     [SaveCharacterDisplayOrder [''B'', ''A''], SetCharacterDisplayOrder (Some [''B'', ''A''])]"
proof -
  have cd: "characterData loadedAB = Some snapshotAB" by (rule loadedAB_eval(1))
  have ids: "getDefaultCharacterDisplayOrder (Some snapshotAB) = [''A'', ''B'']"
    by (simp add: getDefaultCharacterDisplayOrder_def snapshotAB_def idOf_mkCharacter)
  have sw: "swappedOrder [''A'', ''B''] ''B'' ''A'' = [''B'', ''A'']"
    by (simp add: swappedOrder_def splice1_def Let_def)
  have ne: "snapshotAB \<noteq> []" by (simp add: snapshotAB_def)
  note idle = empty_stored_order_as_none [of loadedAB "''A''" "''B''" snapshotAB]
  note dragging = empty_stored_order_as_none
      [of "loadedAB\<lparr>draggingCharacterId := Some ''B''\<rparr>" "''A''" "''B''" snapshotAB]
  from idle have shown: "useCharacterOrder (loadedAB\<lparr>characterDisplayOrder := Some []\<rparr>)
      = ([''A'', ''B''], [])"
    by (simp add: cd ids)
  from idle have kept: "characterDisplayOrder
      (step Render (loadedAB\<lparr>characterDisplayOrder := Some []\<rparr>)) = Some []"
    by simp
  from idle cd ne have invalid: "\<not> isValidCharacterDisplayOrder (Some snapshotAB) []"
    by simp
  from dragging [THEN conjunct2, THEN conjunct2, THEN conjunct2, THEN conjunct2,
      THEN conjunct2, THEN conjunct1]
  have dropped: "dropOnCharacterId ''A''
      (loadedAB\<lparr>draggingCharacterId := Some ''B'', characterDisplayOrder := Some []\<rparr>) =
      [SaveCharacterDisplayOrder [''B'', ''A''], SetCharacterDisplayOrder (Some [''B'', ''A''])]"
    by (simp add: cd ids sw)
  from shown kept invalid dropped show ?thesis by blast
qed

end
